theory Spec2Isabelle
  imports Main "HOL-Library.AList"
begin

section \<open>JavaScript values\<close>

text \<open>
  The payload of a cache entry is typed \<^verbatim>\<open>unknown\<close>: at run time it is whatever
  \<^verbatim>\<open>res.json()\<close> or \<^verbatim>\<open>JSON.parse\<close> produced. Numbers are IEEE doubles; the
  library never computes with them, so their type is a parameter \<open>'n\<close> and the two
  conversions JavaScript applies to them are fields of the platform below. A string is
  a list of code units, read here as \<open>char\<close>s. An object is the list of its own
  properties in creation order; when a name is repeated, the later definition is the
  property's value.
\<close>

datatype 'n jsvalue =
    JUndefined
  | JNull
  | JBool bool
  | JNumber 'n
  | JString string
  | JArray "'n jsvalue list"
  | JObject "(string \<times> 'n jsvalue) list"

text \<open>An \<^verbatim>\<open>Error\<close> object: its constructor's name and its message.\<close>

record Error =
  name :: string
  message :: string

definition new_Error :: "string \<Rightarrow> Error" where
  "new_Error msg = \<lparr>name = ''Error'', message = msg\<rparr>"

text \<open>What the hydrator's \<^verbatim>\<open>try\<close> block can throw; \<^verbatim>\<open>catch {}\<close> binds nothing.\<close>

datatype exn = SyntaxError | TypeError

text \<open>
  The built-ins of the host that the library calls and that are not part of it.
  \<open>JSON_parse\<close> returns \<open>None\<close> where \<^verbatim>\<open>JSON.parse\<close> throws a SyntaxError.
\<close>

record 'n platform =
  JSON_parse :: "string \<Rightarrow> 'n jsvalue option"
  JSON_stringify :: "'n jsvalue \<Rightarrow> string"
  Number_ToBoolean :: "'n \<Rightarrow> bool"
  Number_ToString :: "'n \<Rightarrow> string"

text \<open>Truthiness, as \<^verbatim>\<open>!x\<close>, \<^verbatim>\<open>x || y\<close> and \<^verbatim>\<open>x ? a : b\<close> test it.\<close>

fun ToBoolean :: "'n platform \<Rightarrow> 'n jsvalue \<Rightarrow> bool" where
  "ToBoolean P JUndefined = False"
| "ToBoolean P JNull = False"
| "ToBoolean P (JBool b) = b"
| "ToBoolean P (JNumber n) = Number_ToBoolean P n"
| "ToBoolean P (JString s) = (s \<noteq> [])"
| "ToBoolean P (JArray xs) = True"
| "ToBoolean P (JObject kvs) = True"

text \<open>\<^verbatim>\<open>x ?? y\<close>: \<open>y\<close> exactly when \<open>x\<close> is null or undefined.\<close>

fun nullish :: "'n jsvalue \<Rightarrow> bool" where
  "nullish JUndefined = True"
| "nullish JNull = True"
| "nullish v = False"

definition coalesce :: "'n jsvalue \<Rightarrow> 'n jsvalue \<Rightarrow> 'n jsvalue" where
  "coalesce x y = (if nullish x then y else x)"

section \<open>The cache store\<close>

text \<open>
  \<^verbatim>\<open>type CacheEntry = { data: unknown | null; error: Error | null; promise?: Promise<void> }\<close>.
  A promise is identified by a handle (a natural number).
\<close>

record 'n CacheEntry =
  data :: "'n jsvalue"
  error :: "Error option"
  promise :: "nat option"

text \<open>
  \<^verbatim>\<open>const cache = new Map<string, CacheEntry>()\<close>: an association list in insertion
  order. \<^verbatim>\<open>Map.set\<close> replaces the value of a key in place and appends a new key.
\<close>

type_synonym 'n Cache = "(string \<times> 'n CacheEntry) list"

definition cache_get :: "'n Cache \<Rightarrow> string \<Rightarrow> 'n CacheEntry option" where
  "cache_get c url = map_of c url"

definition cache_set :: "string \<Rightarrow> 'n CacheEntry \<Rightarrow> 'n Cache \<Rightarrow> 'n Cache" where
  "cache_set url e c = AList.update url e c"

text \<open>\<^verbatim>\<open>existing?.data\<close>, \<^verbatim>\<open>existing?.error\<close>, \<^verbatim>\<open>existing?.promise\<close>.\<close>

definition opt_data :: "'n CacheEntry option \<Rightarrow> 'n jsvalue" where
  "opt_data x = (case x of None \<Rightarrow> JUndefined | Some e \<Rightarrow> data e)"

definition opt_error :: "'n CacheEntry option \<Rightarrow> Error option" where
  "opt_error x = (case x of None \<Rightarrow> None | Some e \<Rightarrow> error e)"

definition opt_promise :: "'n CacheEntry option \<Rightarrow> nat option" where
  "opt_promise x = (case x of None \<Rightarrow> None | Some e \<Rightarrow> promise e)"

section \<open>Retrievals\<close>

text \<open>
  The world of the module: the cache, the log of \<^verbatim>\<open>fetch(url)\<close> calls made so far,
  and the handles of the promises that have not settled. The handle of a new promise
  is the number of requests made before it, so promise \<open>p\<close> belongs to the request
  \<open>requests w ! p\<close>.
\<close>

record 'n world =
  cache :: "'n Cache"
  requests :: "string list"
  inflight :: "nat list"

text \<open>
  \<^verbatim>\<open>fetchAndCache\<close>: an entry that holds a promise is answered with that promise;
  otherwise \<^verbatim>\<open>fetch(url)\<close> is called and the entry is replaced by a pending one that
  keeps \<^verbatim>\<open>existing?.data ?? null\<close>.
\<close>

definition fetchAndCache :: "string \<Rightarrow> 'n world \<Rightarrow> nat \<times> 'n world" where
  "fetchAndCache url w =
     (let existing = cache_get (cache w) url in
      case opt_promise existing of
        Some p \<Rightarrow> (p, w)
      | None \<Rightarrow>
          (let p = length (requests w) in
           (p, w\<lparr>cache := cache_set url
                    \<lparr>data = coalesce (opt_data existing) JNull, error = None, promise = Some p\<rparr>
                    (cache w),
                 requests := requests w @ [url],
                 inflight := inflight w @ [p]\<rparr>)))"

text \<open>
  What the network hands back: \<^verbatim>\<open>fetch\<close> rejects, or resolves with a response whose
  \<^verbatim>\<open>json()\<close> rejects or resolves.
\<close>

record 'n Response =
  ok :: bool
  status :: nat
  json :: "Error + 'n jsvalue"

fun show_nat :: "nat \<Rightarrow> string" where
  "show_nat n =
     (if n < 10 then [char_of (48 + n)]
      else show_nat (n div 10) @ [char_of (48 + n mod 10)])"

declare show_nat.simps [simp del]

text \<open>The first \<^verbatim>\<open>.then\<close> of the chain (lines 29-34), with the rejection of \<^verbatim>\<open>fetch\<close> passed on.\<close>

definition retrieval_outcome :: "Error + 'n Response \<Rightarrow> Error + 'n jsvalue" where
  "retrieval_outcome r =
     (case r of
        Inl e \<Rightarrow> Inl e
      | Inr res \<Rightarrow>
          if \<not> ok res
          then Inl (new_Error (''Request failed with status '' @ show_nat (status res)))
          else json res)"

text \<open>The second \<^verbatim>\<open>.then\<close> and the \<^verbatim>\<open>.catch\<close> (lines 35-40).\<close>

definition settled_entry :: "Error + 'n jsvalue \<Rightarrow> 'n CacheEntry" where
  "settled_entry out =
     (case out of
        Inr d \<Rightarrow> \<lparr>data = d, error = None, promise = None\<rparr>
      | Inl e \<Rightarrow> \<lparr>data = JNull, error = Some e, promise = None\<rparr>)"

text \<open>
  The retrieval behind promise \<open>p\<close> settles with \<open>r\<close>: its handlers write the outcome
  under the url the retrieval was started for. A handle that is not in flight has no
  handlers to run.
\<close>

definition settle :: "nat \<Rightarrow> Error + 'n Response \<Rightarrow> 'n world \<Rightarrow> 'n world" where
  "settle p r w =
     (if p \<in> set (inflight w) \<and> p < length (requests w)
      then w\<lparr>cache := cache_set (requests w ! p) (settled_entry (retrieval_outcome r)) (cache w),
             inflight := filter (\<lambda>q. q \<noteq> p) (inflight w)\<rparr>
      else w)"

text \<open>\<^verbatim>\<open>wipeCache\<close>: \<^verbatim>\<open>cache.clear()\<close>. Retrievals in flight are not touched.\<close>

definition wipeCache :: "'n world \<Rightarrow> 'n world" where
  "wipeCache w = w\<lparr>cache := []\<rparr>"

section \<open>The consumer hook and the preloader\<close>

text \<open>
  The three \<^verbatim>\<open>useState\<close> cells of \<^verbatim>\<open>useCachingFetch\<close>, which the hook returns as
  \<^verbatim>\<open>{ data, error, isLoading }\<close>.
\<close>

record 'n FetchState =
  state_data :: "'n jsvalue"
  state_error :: "Error option"
  isLoading :: bool

text \<open>The first render: the initial values of the three cells (lines 55-61).\<close>

definition useCachingFetch :: "'n platform \<Rightarrow> string \<Rightarrow> 'n world \<Rightarrow> 'n FetchState" where
  "useCachingFetch P url w =
     (let cached = cache_get (cache w) url in
      \<lparr>state_data = coalesce (opt_data cached) JNull,
       state_error = opt_error cached,
       isLoading = (case cached of
                      None \<Rightarrow> True
                    | Some e \<Rightarrow> \<not> ToBoolean P (data e) \<and> error e = None)\<rparr>)"

text \<open>
  The body of the effect (lines 63-85) up to the point where it waits: the new values
  of the cells, the promise whose settlement it waits for (if it called
  \<^verbatim>\<open>fetchAndCache\<close>), and the world.
\<close>

definition useEffect_body ::
  "'n platform \<Rightarrow> string \<Rightarrow> 'n FetchState \<Rightarrow> 'n world \<Rightarrow> ('n FetchState \<times> nat option) \<times> 'n world" where
  "useEffect_body P url st w =
     (let cachedEntry = cache_get (cache w) url in
      if ToBoolean P (opt_data cachedEntry) \<or> opt_error cachedEntry \<noteq> None
      then ((\<lparr>state_data = opt_data cachedEntry, state_error = opt_error cachedEntry,
               isLoading = False\<rparr>, None), w)
      else (case fetchAndCache url w of
              (p, w') \<Rightarrow> ((st\<lparr>isLoading := True\<rparr>, Some p), w')))"

text \<open>The callback attached to the promise (lines 78-85), run after it has settled.\<close>

definition on_settled :: "string \<Rightarrow> bool \<Rightarrow> 'n FetchState \<Rightarrow> 'n world \<Rightarrow> 'n FetchState" where
  "on_settled url isMounted st w =
     (if \<not> isMounted then st
      else (let updated = cache_get (cache w) url in
            \<lparr>state_data = coalesce (opt_data updated) JNull,
             state_error = opt_error updated,
             isLoading = False\<rparr>))"

text \<open>\<^verbatim>\<open>preloadCachingFetch\<close>: the promise it awaits, if any, and the world.\<close>

definition preloadCachingFetch :: "'n platform \<Rightarrow> string \<Rightarrow> 'n world \<Rightarrow> nat option \<times> 'n world" where
  "preloadCachingFetch P url w =
     (let cached = cache_get (cache w) url in
      if ToBoolean P (opt_data cached) \<or> opt_error cached \<noteq> None
      then (None, w)
      else (case fetchAndCache url w of (p, w') \<Rightarrow> (Some p, w')))"

text \<open>
  A consumer that reads a key runs the effect; a producer preloads it; the coordinator
  can also be entered directly. Each is atomic on the single timeline; what a call
  hands back is the promise the caller then waits on.
\<close>

datatype call = Read | Preload | Ensure

definition run_call :: "'n platform \<Rightarrow> string \<Rightarrow> call \<Rightarrow> 'n world \<Rightarrow> nat option \<times> 'n world" where
  "run_call P url c w =
     (case c of
        Read \<Rightarrow> (case useEffect_body P url (useCachingFetch P url w) w of
                   ((st, p), w') \<Rightarrow> (p, w'))
      | Preload \<Rightarrow> preloadCachingFetch P url w
      | Ensure \<Rightarrow> (case fetchAndCache url w of (p, w') \<Rightarrow> (Some p, w')))"

fun run_calls :: "'n platform \<Rightarrow> string \<Rightarrow> call list \<Rightarrow> 'n world \<Rightarrow> nat option list \<times> 'n world" where
  "run_calls P url [] w = ([], w)"
| "run_calls P url (c # cs) w =
     (case run_call P url c w of
        (p, w') \<Rightarrow> (case run_calls P url cs w' of (ps, w'') \<Rightarrow> (p # ps, w'')))"

section \<open>Objects as the serializer and the hydrator use them\<close>

text \<open>The own properties of an object, one per name, in creation order.\<close>

definition own_properties :: "(string \<times> 'n jsvalue) list \<Rightarrow> (string \<times> 'n jsvalue) list" where
  "own_properties kvs = fold (\<lambda>kv. AList.update (fst kv) (snd kv)) kvs []"

text \<open>
  \<^verbatim>\<open>value.data\<close> and \<^verbatim>\<open>value.error\<close>: reading a property of null or undefined throws;
  no prototype, array or string defines either name, so only an own property of an
  object gives a value other than undefined.
\<close>

fun Get :: "'n jsvalue \<Rightarrow> string \<Rightarrow> exn + 'n jsvalue" where
  "Get JUndefined k = Inl TypeError"
| "Get JNull k = Inl TypeError"
| "Get (JObject kvs) k =
     Inr (case map_of (own_properties kvs) k of None \<Rightarrow> JUndefined | Some v \<Rightarrow> v)"
| "Get v k = Inr JUndefined"

definition is_digit :: "char \<Rightarrow> bool" where
  "is_digit c = (48 \<le> (of_char c :: nat) \<and> (of_char c :: nat) \<le> 57)"

definition read_decimal :: "string \<Rightarrow> int" where
  "read_decimal s = foldl (\<lambda>n c. 10 * n + (of_char c - 48)) 0 s"

text \<open>An array index: the canonical decimal text of an integer below \<open>2^32 - 1\<close>.\<close>

definition is_array_index :: "string \<Rightarrow> bool" where
  "is_array_index s =
     (s \<noteq> [] \<and> list_all is_digit s \<and> (s = ''0'' \<or> hd s \<noteq> CHR ''0'')
      \<and> length s \<le> 10 \<and> read_decimal s < 4294967295)"

text \<open>The order in which the own properties of an object are enumerated.\<close>

definition property_order :: "(string \<times> 'a) list \<Rightarrow> (string \<times> 'a) list" where
  "property_order ps =
     sort_key (\<lambda>p. read_decimal (fst p)) (filter (\<lambda>p. is_array_index (fst p)) ps)
     @ filter (\<lambda>p. \<not> is_array_index (fst p)) ps"

definition indexed :: "'a list \<Rightarrow> (string \<times> 'a) list" where
  "indexed xs = zip (map show_nat [0..<length xs]) xs"

text \<open>\<^verbatim>\<open>Object.entries\<close>, which throws on null and undefined.\<close>

definition Object_entries :: "'n jsvalue \<Rightarrow> exn + (string \<times> 'n jsvalue) list" where
  "Object_entries v =
     (case v of
        JUndefined \<Rightarrow> Inl TypeError
      | JNull \<Rightarrow> Inl TypeError
      | JBool b \<Rightarrow> Inr []
      | JNumber n \<Rightarrow> Inr []
      | JString s \<Rightarrow> Inr (indexed (map (\<lambda>c. JString [c]) s))
      | JArray xs \<Rightarrow> Inr (indexed xs)
      | JObject kvs \<Rightarrow> Inr (property_order (own_properties kvs)))"

text \<open>
  The conversion to a string that \<^verbatim>\<open>new Error(x)\<close> applies to its argument; \<open>None\<close>
  where it throws a TypeError. An array joins its elements with commas, null and
  undefined elements as the empty string. An object parsed from JSON has no callable
  property: with an own \<^verbatim>\<open>toString\<close> the conversion finds no usable method and throws,
  without one it is \<^verbatim>\<open>Object.prototype.toString\<close>.
\<close>

fun ToString :: "'n platform \<Rightarrow> 'n jsvalue \<Rightarrow> string option"
  and join_elements :: "'n platform \<Rightarrow> 'n jsvalue list \<Rightarrow> string option" where
  "ToString P JUndefined = Some ''undefined''"
| "ToString P JNull = Some ''null''"
| "ToString P (JBool b) = Some (if b then ''true'' else ''false'')"
| "ToString P (JNumber n) = Some (Number_ToString P n)"
| "ToString P (JString s) = Some s"
| "ToString P (JArray xs) = join_elements P xs"
| "ToString P (JObject kvs) =
     (if map_of (own_properties kvs) ''toString'' = None
      then Some ''[object Object]'' else None)"
| "join_elements P [] = Some []"
| "join_elements P (x # xs) =
     (case (if nullish x then Some [] else ToString P x) of
        None \<Rightarrow> None
      | Some s \<Rightarrow>
          if xs = [] then Some s
          else (case join_elements P xs of
                  None \<Rightarrow> None
                | Some t \<Rightarrow> Some (s @ '','' @ t)))"

section \<open>Serializer\<close>

text \<open>
  \<^verbatim>\<open>serializable[key] = ...\<close> on an ordinary object. The name \<^verbatim>\<open>__proto__\<close> is an
  accessor inherited from \<^verbatim>\<open>Object.prototype\<close>: assigning an object to it replaces
  the prototype and creates no own property.
\<close>

definition set_property ::
  "string \<Rightarrow> 'n jsvalue \<Rightarrow> (string \<times> 'n jsvalue) list \<Rightarrow> (string \<times> 'n jsvalue) list" where
  "set_property key v props =
     (if key = ''__proto__'' then props else AList.update key v props)"

definition serializable_entry :: "'n CacheEntry \<Rightarrow> 'n jsvalue" where
  "serializable_entry value =
     JObject [(''data'', data value),
              (''error'', case error value of
                            Some e \<Rightarrow> JString (message e)
                          | None \<Rightarrow> JNull)]"

definition serializable :: "'n Cache \<Rightarrow> (string \<times> 'n jsvalue) list" where
  "serializable c = fold (\<lambda>kv. set_property (fst kv) (serializable_entry (snd kv))) c []"

definition serializeCache :: "'n platform \<Rightarrow> 'n world \<Rightarrow> string" where
  "serializeCache P w = JSON_stringify P (JObject (serializable (cache w)))"

section \<open>Hydrator\<close>

text \<open>The entry built for one snapshot value (lines 139-142); \<open>Inl\<close> where building it throws.\<close>

definition hydrate_entry :: "'n platform \<Rightarrow> 'n jsvalue \<Rightarrow> exn + 'n CacheEntry" where
  "hydrate_entry P value =
     (case Get value ''data'' of
        Inl x \<Rightarrow> Inl x
      | Inr d \<Rightarrow>
          (case Get value ''error'' of
             Inl x \<Rightarrow> Inl x
           | Inr e \<Rightarrow>
               if ToBoolean P e
               then (case ToString P e of
                       None \<Rightarrow> Inl TypeError
                     | Some msg \<Rightarrow> Inr \<lparr>data = d, error = Some (new_Error msg), promise = None\<rparr>)
               else Inr \<lparr>data = d, error = None, promise = None\<rparr>))"

text \<open>
  The \<^verbatim>\<open>forEach\<close>: entries are installed one after the other; a throw ends the loop
  and keeps what was installed before it.
\<close>

fun forEach_set ::
  "'n platform \<Rightarrow> (string \<times> 'n jsvalue) list \<Rightarrow> 'n Cache \<Rightarrow> (exn + unit) \<times> 'n Cache" where
  "forEach_set P [] c = (Inr (), c)"
| "forEach_set P (kv # rest) c =
     (case hydrate_entry P (snd kv) of
        Inl x \<Rightarrow> (Inl x, c)
      | Inr e \<Rightarrow> forEach_set P rest (cache_set (fst kv) e c))"

text \<open>The \<^verbatim>\<open>try\<close> block (lines 133-143).\<close>

definition try_block :: "'n platform \<Rightarrow> string \<Rightarrow> 'n Cache \<Rightarrow> (exn + unit) \<times> 'n Cache" where
  "try_block P serializedCache c =
     (case JSON_parse P serializedCache of
        None \<Rightarrow> (Inl SyntaxError, c)
      | Some parsed \<Rightarrow>
          (case Object_entries parsed of
             Inl x \<Rightarrow> (Inl x, c)
           | Inr es \<Rightarrow> forEach_set P es c))"

text \<open>
  \<^verbatim>\<open>initializeCache\<close>: how the call completes (\<open>Inl\<close> would be an exception reaching
  the caller) and the world after it. The empty string returns at once; whatever the
  \<^verbatim>\<open>try\<close> block throws is caught and dropped.
\<close>

definition initializeCache :: "'n platform \<Rightarrow> string \<Rightarrow> 'n world \<Rightarrow> (exn + unit) \<times> 'n world" where
  "initializeCache P serializedCache w =
     (if serializedCache = [] then (Inr (), w)
      else (case try_block P serializedCache (cache w) of
              (completion, c') \<Rightarrow> (Inr (), w\<lparr>cache := c'\<rparr>)))"

section \<open>A reference platform\<close>

text \<open>
  The theorems below hold for every platform. To run the library on concrete inputs,
  this is one platform: numbers are integers written as integer literals, texts are
  ASCII. \<open>ref_stringify\<close> writes what \<^verbatim>\<open>JSON.stringify\<close> writes for such values (no
  white space, properties in enumeration order, properties whose value is undefined
  left out, undefined array elements as null); \<open>ref_JSON_parse\<close> reads the JSON grammar,
  with a number literal that has a fraction or an exponent, and a \<^verbatim>\<open>\u\<close> escape
  beyond one byte, out of its range.
\<close>

definition show_int :: "int \<Rightarrow> string" where
  "show_int i = (if i < 0 then CHR ''-'' # show_nat (nat (- i)) else show_nat (nat i))"

definition hex_digit :: "nat \<Rightarrow> char" where
  "hex_digit d = (if d < 10 then char_of (48 + d) else char_of (87 + d))"

definition escape_char :: "char \<Rightarrow> string" where
  "escape_char c =
     (let n = (of_char c :: nat) in
      if n = 34 then [CHR 0x5C, CHR 0x22]
      else if n = 92 then [CHR 0x5C, CHR 0x5C]
      else if n = 8 then [CHR 0x5C, CHR ''b'']
      else if n = 12 then [CHR 0x5C, CHR ''f'']
      else if n = 10 then [CHR 0x5C, CHR ''n'']
      else if n = 13 then [CHR 0x5C, CHR ''r'']
      else if n = 9 then [CHR 0x5C, CHR ''t'']
      else if n < 32 then [CHR 0x5C, CHR ''u'', CHR ''0'', CHR ''0'', hex_digit (n div 16), hex_digit (n mod 16)]
      else [c])"

definition quote :: "string \<Rightarrow> string" where
  "quote s = CHR 0x22 # concat (map escape_char s) @ [CHR 0x22]"

fun join_with :: "string \<Rightarrow> string list \<Rightarrow> string" where
  "join_with sep [] = []"
| "join_with sep [x] = x"
| "join_with sep (x # y # ys) = x @ sep @ join_with sep (y # ys)"

fun ref_stringify :: "int jsvalue \<Rightarrow> string"
  and stringify_elements :: "int jsvalue list \<Rightarrow> string list"
  and stringify_members :: "(string \<times> int jsvalue) list \<Rightarrow> string list" where
  "ref_stringify JUndefined = ''undefined''"
| "ref_stringify JNull = ''null''"
| "ref_stringify (JBool b) = (if b then ''true'' else ''false'')"
| "ref_stringify (JNumber n) = show_int n"
| "ref_stringify (JString s) = quote s"
| "ref_stringify (JArray xs) = ''['' @ join_with '','' (stringify_elements xs) @ '']''"
| "ref_stringify (JObject kvs) = ''{'' @ join_with '','' (stringify_members kvs) @ ''}''"
| "stringify_elements [] = []"
| "stringify_elements (x # xs) =
     (if x = JUndefined then ''null'' else ref_stringify x) # stringify_elements xs"
| "stringify_members [] = []"
| "stringify_members (kv # kvs) =
     (if snd kv = JUndefined then stringify_members kvs
      else (quote (fst kv) @ '':'' @ ref_stringify (snd kv)) # stringify_members kvs)"

text \<open>
  Objects are written by \<open>ref_stringify\<close> as their list stands; \<open>ref_JSON_stringify\<close>
  first puts every object into enumeration order.
\<close>

fun enumeration_order :: "int jsvalue \<Rightarrow> int jsvalue"
  and enumeration_order_list :: "int jsvalue list \<Rightarrow> int jsvalue list"
  and enumeration_order_members :: "(string \<times> int jsvalue) list \<Rightarrow> (string \<times> int jsvalue) list" where
  "enumeration_order (JArray xs) = JArray (enumeration_order_list xs)"
| "enumeration_order (JObject kvs) =
     JObject (property_order (own_properties (enumeration_order_members kvs)))"
| "enumeration_order JUndefined = JUndefined"
| "enumeration_order JNull = JNull"
| "enumeration_order (JBool b) = JBool b"
| "enumeration_order (JNumber n) = JNumber n"
| "enumeration_order (JString s) = JString s"
| "enumeration_order_list [] = []"
| "enumeration_order_list (x # xs) = enumeration_order x # enumeration_order_list xs"
| "enumeration_order_members [] = []"
| "enumeration_order_members (kv # kvs) =
     (fst kv, enumeration_order (snd kv)) # enumeration_order_members kvs"

definition ref_JSON_stringify :: "int jsvalue \<Rightarrow> string" where
  "ref_JSON_stringify v = ref_stringify (enumeration_order v)"

definition is_ws :: "char \<Rightarrow> bool" where
  "is_ws c = (c = CHR 0x20 \<or> c = CHR 0x09 \<or> c = CHR 0x0A \<or> c = CHR 0x0D)"

definition skip_ws :: "string \<Rightarrow> string" where
  "skip_ws s = dropWhile is_ws s"

definition hex_value :: "char \<Rightarrow> nat option" where
  "hex_value c =
     (let n = (of_char c :: nat) in
      if 48 \<le> n \<and> n \<le> 57 then Some (n - 48)
      else if 97 \<le> n \<and> n \<le> 102 then Some (n - 87)
      else if 65 \<le> n \<and> n \<le> 70 then Some (n - 55)
      else None)"

definition unescape :: "char \<Rightarrow> char option" where
  "unescape e =
     (if e = CHR 0x22 \<or> e = CHR 0x5C \<or> e = CHR ''/'' then Some e
      else if e = CHR ''b'' then Some (CHR 0x08)
      else if e = CHR ''f'' then Some (CHR 0x0C)
      else if e = CHR ''n'' then Some (CHR 0x0A)
      else if e = CHR ''r'' then Some (CHR 0x0D)
      else if e = CHR ''t'' then Some (CHR 0x09)
      else None)"

definition unicode_escape :: "char \<Rightarrow> char \<Rightarrow> char \<Rightarrow> char \<Rightarrow> char option" where
  "unicode_escape a b c d =
     (case (hex_value a, hex_value b, hex_value c, hex_value d) of
        (Some 0, Some 0, Some x, Some y) \<Rightarrow> Some (char_of (16 * x + y))
      | _ \<Rightarrow> None)"

text \<open>The characters of a string literal after its opening quote, and the rest of the text.\<close>

fun parse_chars :: "string \<Rightarrow> string \<Rightarrow> (string \<times> string) option" where
  "parse_chars acc [] = None"
| "parse_chars acc [c] = (if c = CHR 0x22 then Some (rev acc, []) else None)"
| "parse_chars acc (c # e # cs) =
     (if c = CHR 0x22 then Some (rev acc, e # cs)
      else if c = CHR 0x5C then
        (if e = CHR ''u'' then
           (case cs of
              h1 # h2 # h3 # h4 # rest \<Rightarrow>
                (case unicode_escape h1 h2 h3 h4 of
                   None \<Rightarrow> None
                 | Some x \<Rightarrow> parse_chars (x # acc) rest)
            | _ \<Rightarrow> None)
         else (case unescape e of
                 None \<Rightarrow> None
               | Some x \<Rightarrow> parse_chars (x # acc) cs))
      else if (of_char c :: nat) < 32 then None
      else parse_chars (c # acc) (e # cs))"

definition parse_number :: "string \<Rightarrow> (int \<times> string) option" where
  "parse_number s =
     (let neg = (s \<noteq> [] \<and> hd s = CHR ''-'');
          body = (if neg then tl s else s);
          ds = takeWhile is_digit body;
          rest = dropWhile is_digit body
      in if ds = [] \<or> (length ds > 1 \<and> hd ds = CHR ''0'') then None
         else if rest \<noteq> [] \<and> (hd rest = CHR ''.'' \<or> hd rest = CHR ''e'' \<or> hd rest = CHR ''E'') then None
         else Some (if neg then - read_decimal ds else read_decimal ds, rest))"

definition strip_prefix :: "string \<Rightarrow> string \<Rightarrow> string option" where
  "strip_prefix pre s = (if take (length pre) s = pre then Some (drop (length pre) s) else None)"

text \<open>
  Recursive descent. The first argument bounds the nesting of calls; each level
  of nesting reads at least one character every second call, so twice the length of
  the text (and two) is enough for every text.
\<close>

fun parse_value :: "nat \<Rightarrow> string \<Rightarrow> (int jsvalue \<times> string) option"
  and parse_elements :: "nat \<Rightarrow> string \<Rightarrow> (int jsvalue list \<times> string) option"
  and parse_members :: "nat \<Rightarrow> string \<Rightarrow> ((string \<times> int jsvalue) list \<times> string) option" where
  "parse_value 0 s = None"
| "parse_value (Suc n) s =
     (case skip_ws s of
        [] \<Rightarrow> None
      | c # cs \<Rightarrow>
          if c = CHR ''{'' then
            (case skip_ws cs of
               [] \<Rightarrow> None
             | d # ds \<Rightarrow> if d = CHR ''}'' then Some (JObject [], ds)
                         else map_option (apfst JObject) (parse_members n cs))
          else if c = CHR ''['' then
            (case skip_ws cs of
               [] \<Rightarrow> None
             | d # ds \<Rightarrow> if d = CHR '']'' then Some (JArray [], ds)
                         else map_option (apfst JArray) (parse_elements n cs))
          else if c = CHR 0x22 then map_option (apfst JString) (parse_chars [] cs)
          else if c = CHR ''t'' then map_option (Pair (JBool True)) (strip_prefix ''rue'' cs)
          else if c = CHR ''f'' then map_option (Pair (JBool False)) (strip_prefix ''alse'' cs)
          else if c = CHR ''n'' then map_option (Pair JNull) (strip_prefix ''ull'' cs)
          else map_option (apfst JNumber) (parse_number (c # cs)))"
| "parse_elements 0 s = None"
| "parse_elements (Suc n) s =
     (case parse_value n s of
        None \<Rightarrow> None
      | Some (v, r) \<Rightarrow>
          (case skip_ws r of
             [] \<Rightarrow> None
           | c # cs \<Rightarrow>
               if c = CHR '']'' then Some ([v], cs)
               else if c = CHR '','' then
                 map_option (apfst ((#) v)) (parse_elements n cs)
               else None))"
| "parse_members 0 s = None"
| "parse_members (Suc n) s =
     (case skip_ws s of
        [] \<Rightarrow> None
      | q # s1 \<Rightarrow>
          if q \<noteq> CHR 0x22 then None
          else (case parse_chars [] s1 of
                  None \<Rightarrow> None
                | Some (k, s2) \<Rightarrow>
                    (case skip_ws s2 of
                       [] \<Rightarrow> None
                     | colon # s3 \<Rightarrow>
                         if colon \<noteq> CHR '':'' then None
                         else (case parse_value n s3 of
                                 None \<Rightarrow> None
                               | Some (v, r) \<Rightarrow>
                                   (case skip_ws r of
                                      [] \<Rightarrow> None
                                    | c # cs \<Rightarrow>
                                        if c = CHR ''}'' then Some ([(k, v)], cs)
                                        else if c = CHR '','' then
                                          map_option (apfst ((#) (k, v))) (parse_members n cs)
                                        else None)))))"

definition ref_JSON_parse :: "string \<Rightarrow> int jsvalue option" where
  "ref_JSON_parse s =
     (case parse_value (2 * length s + 2) s of
        None \<Rightarrow> None
      | Some (v, r) \<Rightarrow> if skip_ws r = [] then Some v else None)"

definition ref_platform :: "int platform" where
  "ref_platform =
     \<lparr>JSON_parse = ref_JSON_parse,
      JSON_stringify = ref_JSON_stringify,
      Number_ToBoolean = (\<lambda>n. n \<noteq> 0),
      Number_ToString = show_int\<rparr>"

text \<open>The world before anything has run.\<close>

definition initial_world :: "'n world" where
  "initial_world = \<lparr>cache = [], requests = [], inflight = []\<rparr>"

text \<open>
  The world right after one retrieval for \<open>url\<close> has been started from \<open>w\<close> for a key
  without an entry: one more request, one more promise, a pending entry.
\<close>

definition pending_world :: "string \<Rightarrow> 'n world \<Rightarrow> 'n world" where
  "pending_world url w =
     w\<lparr>cache := cache_set url
                \<lparr>data = JNull, error = None, promise = Some (length (requests w))\<rparr> (cache w),
       requests := requests w @ [url],
       inflight := inflight w @ [length (requests w)]\<rparr>"

text \<open>
  The entries the \<^verbatim>\<open>forEach\<close> installs, in order: those of the values before the
  first one whose entry cannot be built. \<open>set_all\<close> is \<^verbatim>\<open>cache.set\<close> for each of them.
\<close>

fun installed :: "'n platform \<Rightarrow> (string \<times> 'n jsvalue) list \<Rightarrow> (string \<times> 'n CacheEntry) list" where
  "installed P [] = []"
| "installed P (kv # rest) =
     (case hydrate_entry P (snd kv) of
        Inl x \<Rightarrow> []
      | Inr e \<Rightarrow> (fst kv, e) # installed P rest)"

definition set_all :: "(string \<times> 'n CacheEntry) list \<Rightarrow> 'n Cache \<Rightarrow> 'n Cache" where
  "set_all kes c = fold (\<lambda>ke. cache_set (fst ke) (snd ke)) kes c"

section \<open>Invariant I2 of the specification\<close>

text \<open>
  In the specification's words: data and error are mutually exclusive, and both are
  absent while the entry is pending. Absent is null or undefined.
\<close>

definition I2 :: "'n CacheEntry \<Rightarrow> bool" where
  "I2 e = ((nullish (data e) \<or> error e = None)
          \<and> (promise e = None \<or> (nullish (data e) \<and> error e = None)))"

definition store_I2 :: "'n world \<Rightarrow> bool" where
  "store_I2 w = list_all I2 (map snd (cache w))"

text \<open>
  A snapshot value does not carry both: where the hydrator can read \<^verbatim>\<open>value.data\<close> and
  \<^verbatim>\<open>value.error\<close>, the data is absent or the error is falsy. \<open>snapshot_values\<close> are
  the values of the entries the hydrator walks through for a text.
\<close>

definition exclusive_value :: "'n platform \<Rightarrow> 'n jsvalue \<Rightarrow> bool" where
  "exclusive_value P v =
     (case Get v ''data'' of
        Inl x \<Rightarrow> True
      | Inr d \<Rightarrow>
          (case Get v ''error'' of
             Inl x \<Rightarrow> True
           | Inr e \<Rightarrow> nullish d \<or> \<not> ToBoolean P e))"

definition snapshot_values :: "'n platform \<Rightarrow> string \<Rightarrow> 'n jsvalue list" where
  "snapshot_values P s =
     (case JSON_parse P s of
        None \<Rightarrow> []
      | Some parsed \<Rightarrow>
          (case Object_entries parsed of
             Inl x \<Rightarrow> []
           | Inr es \<Rightarrow> map snd es))"

section \<open>Snapshots and example worlds\<close>

text \<open>
  What the hydrator builds from the snapshot value of an entry: the data, an error
  made from the message alone unless the message is empty, no promise.
\<close>

definition rehydrated :: "'n CacheEntry \<Rightarrow> 'n CacheEntry" where
  "rehydrated e =
     \<lparr>data = data e,
      error = (case error e of
                 None \<Rightarrow> None
               | Some err \<Rightarrow> if message err = [] then None else Some (new_Error (message err))),
      promise = None\<rparr>"

text \<open>
  The properties of the snapshot object when the keys of the store are distinct: one
  per key other than \<^verbatim>\<open>__proto__\<close>, in the order of the store.
\<close>

definition snapshot_of :: "'n Cache \<Rightarrow> (string \<times> 'n jsvalue) list" where
  "snapshot_of c =
     map (\<lambda>kv. (fst kv, serializable_entry (snd kv))) (filter (\<lambda>kv. fst kv \<noteq> ''__proto__'') c)"

text \<open>
  A producer's world after two preloads have settled, one with a payload and one with
  status 404; and a world in which a retrieval has resolved with the payload
  \<^verbatim>\<open>false\<close>.
\<close>

definition producer_world :: "int world" where
  "producer_world =
     \<lparr>cache =
        [(''/items'', \<lparr>data = JArray [JNumber 1, JString ''a''], error = None, promise = None\<rparr>),
         (''/missing'',
          \<lparr>data = JNull,
           error = Some \<lparr>name = ''Error'', message = ''Request failed with status 404''\<rparr>,
           promise = None\<rparr>)],
      requests = [''/items'', ''/missing''],
      inflight = []\<rparr>"

definition resolved_false_world :: "int world" where
  "resolved_false_world =
     \<lparr>cache = [(''/flag'', \<lparr>data = JBool False, error = None, promise = None\<rparr>)],
      requests = [''/flag''],
      inflight = []\<rparr>"

section \<open>Basic facts\<close>

lemma cache_get_set_same: "cache_get (cache_set url e c) url = Some e"
  by (simp add: cache_get_def cache_set_def update_Some_unfold)

lemma cache_get_set_other: "k \<noteq> url \<Longrightarrow> cache_get (cache_set url e c) k = cache_get c k"
  by (simp add: cache_get_def cache_set_def update_conv')

lemma initial_world_fields:
  "cache initial_world = []" "requests initial_world = []" "inflight initial_world = []"
  by (simp_all add: initial_world_def)

lemma pending_world_initial:
  "pending_world url initial_world
     = \<lparr>cache = [(url, \<lparr>data = JNull, error = None, promise = Some 0\<rparr>)],
        requests = [url], inflight = [0]\<rparr>"
  by (simp add: pending_world_def initial_world_def cache_set_def)

lemma fetchAndCache_empty:
  "cache_get (cache w) url = None \<Longrightarrow>
   fetchAndCache url w = (length (requests w), pending_world url w)"
  by (simp add: fetchAndCache_def pending_world_def opt_promise_def opt_data_def coalesce_def Let_def)

lemma fetchAndCache_pending:
  "cache_get (cache w) url = Some e \<Longrightarrow> promise e = Some p \<Longrightarrow> fetchAndCache url w = (p, w)"
  by (simp add: fetchAndCache_def opt_promise_def)

lemma cache_pending_world:
  "cache_get (cache (pending_world url w)) url
     = Some \<lparr>data = JNull, error = None, promise = Some (length (requests w))\<rparr>"
  by (simp add: pending_world_def cache_get_set_same)

lemma show_nat_404: "show_nat 404 = ''404''"
  by code_simp

lemma cache_initializeCache:
  "cache (snd (initializeCache P s w)) =
     (if s = [] then cache w else snd (try_block P s (cache w)))"
  by (simp add: initializeCache_def split: prod.splits)

section \<open>De-duplication of concurrent calls\<close>

lemma run_call_empty:
  "cache_get (cache w) url = None \<Longrightarrow>
   run_call P url c w = (Some (length (requests w)), pending_world url w)"
  by (cases c)
     (simp_all add: run_call_def useEffect_body_def preloadCachingFetch_def fetchAndCache_empty
        opt_data_def opt_error_def)

lemma run_call_pending:
  "cache_get (cache w) url = Some \<lparr>data = JNull, error = None, promise = Some p\<rparr> \<Longrightarrow>
   run_call P url c w = (Some p, w)"
  by (cases c)
     (simp_all add: run_call_def useEffect_body_def preloadCachingFetch_def fetchAndCache_pending
        opt_data_def opt_error_def)

lemma run_calls_pending:
  "cache_get (cache w) url = Some \<lparr>data = JNull, error = None, promise = Some p\<rparr> \<Longrightarrow>
   run_calls P url cs w = (replicate (length cs) (Some p), w)"
  by (induction cs) (simp_all add: run_call_pending)

text \<open>
  C1, as the code has it. From a world in which \<open>url\<close> has no entry, any non-empty
  sequence of calls for \<open>url\<close> (consumers running the effect of \<^verbatim>\<open>useCachingFetch\<close>,
  preloads, or direct calls of \<^verbatim>\<open>fetchAndCache\<close>) made before the retrieval settles
  starts exactly one retrieval: the request log grows by one request for \<open>url\<close>, one
  promise is added to those in flight, every call is handed that same promise, and
  the entry holds it. The world is the same after every non-empty prefix of the
  calls, so this holds at every instant of the window. When the promise settles with
  \<open>r\<close>, the entry holds the outcome of \<open>r\<close>, and the callback of every mounted
  consumer reads that one outcome. That this promise is the only one in flight for
  \<open>url\<close> needs more than a missing entry: it holds if no retrieval for \<open>url\<close> was
  still in flight when the window opened.
\<close>

theorem concurrent_calls_start_one_retrieval:
  assumes "cache_get (cache w) url = None" and "calls \<noteq> []"
  shows "run_calls P url calls w
           = (replicate (length calls) (Some (length (requests w))), pending_world url w)
       \<and> requests (pending_world url w) = requests w @ [url]
       \<and> inflight (pending_world url w) = inflight w @ [length (requests w)]
       \<and> opt_promise (cache_get (cache (pending_world url w)) url) = Some (length (requests w))
       \<and> ((\<forall>q \<in> set (inflight w). q < length (requests w) \<and> requests w ! q \<noteq> url) \<longrightarrow>
            filter (\<lambda>q. requests (pending_world url w) ! q = url) (inflight (pending_world url w))
              = [length (requests w)])
       \<and> cache_get (cache (settle (length (requests w)) r (pending_world url w))) url
           = Some (settled_entry (retrieval_outcome r))
       \<and> on_settled url True st (settle (length (requests w)) r (pending_world url w))
           = \<lparr>state_data = coalesce (data (settled_entry (retrieval_outcome r))) JNull,
              state_error = error (settled_entry (retrieval_outcome r)),
              isLoading = False\<rparr>"
proof -
  obtain c cs where calls: "calls = c # cs"
    using assms(2) by (cases calls) auto
  have run: "run_calls P url calls w
           = (replicate (length calls) (Some (length (requests w))), pending_world url w)"
    by (simp add: calls run_call_empty [OF assms(1)] run_calls_pending [OF cache_pending_world])
  have settled: "cache_get (cache (settle (length (requests w)) r (pending_world url w))) url
           = Some (settled_entry (retrieval_outcome r))"
    by (simp add: settle_def pending_world_def cache_get_set_same)
  have one: "(\<forall>q \<in> set (inflight w). q < length (requests w) \<and> requests w ! q \<noteq> url) \<longrightarrow>
            filter (\<lambda>q. requests (pending_world url w) ! q = url) (inflight (pending_world url w))
              = [length (requests w)]"
    by (auto simp: pending_world_def nth_append filter_empty_conv)
  show ?thesis
    using run settled one
    by (simp add: on_settled_def opt_data_def opt_error_def cache_pending_world opt_promise_def)
       (simp add: pending_world_def)
qed

theorem concurrent_calls_start_one_retrieval_witness:
  "cache_get (cache (initial_world :: int world)) ''/items'' = None
   \<and> [Read, Ensure, Preload, Read] \<noteq> []
   \<and> run_calls ref_platform ''/items'' [Read, Ensure, Preload, Read] initial_world
       = ([Some 0, Some 0, Some 0, Some 0],
          \<lparr>cache = [(''/items'', \<lparr>data = JNull, error = None, promise = Some 0\<rparr>)],
           requests = [''/items''], inflight = [0]\<rparr>)
   \<and> cache_get (cache (settle 0 (Inr \<lparr>ok = True, status = 200, json = Inr (JString ''payload'')\<rparr>)
         (pending_world ''/items'' (initial_world :: int world)))) ''/items''
       = Some \<lparr>data = JString ''payload'', error = None, promise = None\<rparr>"
proof -
  have h1: "cache_get (cache (initial_world :: int world)) ''/items'' = None"
    by (simp add: initial_world_def cache_get_def)
  have h2: "[Read, Ensure, Preload, Read] \<noteq> []"
    by simp
  from concurrent_calls_start_one_retrieval [OF h1 h2, of ref_platform
      "Inr \<lparr>ok = True, status = 200, json = Inr (JString ''payload'')\<rparr>"]
  show ?thesis
    using h1
    by (simp add: pending_world_initial initial_world_fields retrieval_outcome_def settled_entry_def)
qed

text \<open>
  With a missing entry as the only condition, the part about the promises in flight
  fails: \<^verbatim>\<open>wipeCache\<close> clears the map and leaves a running retrieval alone, so after
  a preload and a wipe the key has no entry, the next calls start a second retrieval
  for it, and two promises for the same key are in flight.
\<close>

theorem second_retrieval_after_wipe:
  "cache_get (cache (wipeCache (snd (preloadCachingFetch ref_platform ''/a'' initial_world)))) ''/a''
     = None
   \<and> run_calls ref_platform ''/a'' [Read, Preload]
       (wipeCache (snd (preloadCachingFetch ref_platform ''/a'' initial_world)))
     = ([Some 1, Some 1],
        \<lparr>cache = [(''/a'', \<lparr>data = JNull, error = None, promise = Some 1\<rparr>)],
         requests = [''/a'', ''/a''],
         inflight = [0, 1]\<rparr>)
   \<and> filter (\<lambda>q. [''/a'', ''/a''] ! q = ''/a'') [0, 1] = [0, 1 :: nat]"
  by code_simp

section \<open>Wipe during a pending window\<close>

text \<open>
  C9. If \<^verbatim>\<open>wipeCache()\<close> runs while the retrieval behind promise \<open>p\<close> is in flight,
  the settlement of \<open>p\<close> still writes its outcome: after the wipe the store is empty,
  and after the settlement it has an entry for the url of \<open>p\<close> again, although no
  request was made in between.
\<close>

theorem wipe_during_pending_regains_entry:
  assumes "p \<in> set (inflight w)" and "p < length (requests w)"
  shows "cache (wipeCache w) = []
       \<and> cache_get (cache (settle p r (wipeCache w))) (requests w ! p)
           = Some (settled_entry (retrieval_outcome r))
       \<and> requests (settle p r (wipeCache w)) = requests w"
  using assms by (simp add: wipeCache_def settle_def cache_get_set_same)

theorem wipe_during_pending_regains_entry_witness:
  "(0::nat) \<in> set (inflight (snd (fetchAndCache ''/items'' (initial_world :: int world))))
   \<and> 0 < length (requests (snd (fetchAndCache ''/items'' (initial_world :: int world))))
   \<and> cache (wipeCache (snd (fetchAndCache ''/items'' (initial_world :: int world)))) = []
   \<and> cache_get (cache (settle 0 (Inr \<lparr>ok = True, status = 200, json = Inr (JBool True)\<rparr>)
         (wipeCache (snd (fetchAndCache ''/items'' (initial_world :: int world)))))) ''/items''
       = Some \<lparr>data = JBool True, error = None, promise = None\<rparr>
   \<and> requests (settle 0 (Inr \<lparr>ok = True, status = 200, json = Inr (JBool True)\<rparr>)
         (wipeCache (snd (fetchAndCache ''/items'' (initial_world :: int world))))) = [''/items'']
   \<and> cache_get (cache (settle 0 (Inr \<lparr>ok = False, status = 404, json = Inr JNull\<rparr>)
         (wipeCache (snd (fetchAndCache ''/items'' (initial_world :: int world)))))) ''/items''
       = Some \<lparr>data = JNull,
               error = Some \<lparr>name = ''Error'', message = ''Request failed with status 404''\<rparr>,
               promise = None\<rparr>"
proof -
  let ?w = "snd (fetchAndCache ''/items'' (initial_world :: int world))"
  have w: "?w = \<lparr>cache = [(''/items'', \<lparr>data = JNull, error = None, promise = Some 0\<rparr>)],
                  requests = [''/items''], inflight = [0]\<rparr>"
    by (simp add: fetchAndCache_def initial_world_def cache_get_def cache_set_def
        opt_promise_def opt_data_def coalesce_def)
  have h1: "(0::nat) \<in> set (inflight ?w)" and h2: "0 < length (requests ?w)"
    by (simp_all add: w)
  from wipe_during_pending_regains_entry [OF h1 h2,
      of "Inr \<lparr>ok = True, status = 200, json = Inr (JBool True)\<rparr>"]
    wipe_during_pending_regains_entry [OF h1 h2,
      of "Inr \<lparr>ok = False, status = 404, json = Inr JNull\<rparr>"]
  show ?thesis using h1 h2
    by (simp add: w retrieval_outcome_def settled_entry_def show_nat_404 new_Error_def)
qed

section \<open>Failed retrievals\<close>

text \<open>
  C8, as the code has it. When the retrieval behind promise \<open>p\<close> completes
  unsuccessfully, the entry of its url becomes a failed one with data null and, as
  error, the error object itself that the chain rejected with: for a response with
  a non-success status a new \<^verbatim>\<open>Error\<close> whose message is
  \<^verbatim>\<open>Request failed with status <code>\<close>; for a failed decoding the decoder's error
  object, unchanged; for a rejected \<^verbatim>\<open>fetch\<close> its error object, unchanged.
\<close>

theorem failed_retrieval_stores_error_object:
  assumes "p \<in> set (inflight w)" and "p < length (requests w)"
  shows "(\<not> ok res \<longrightarrow>
            cache_get (cache (settle p (Inr res) w)) (requests w ! p)
              = Some \<lparr>data = JNull,
                      error = Some (new_Error (''Request failed with status '' @ show_nat (status res))),
                      promise = None\<rparr>)
       \<and> (ok res' \<and> json res' = Inl e \<longrightarrow>
            cache_get (cache (settle p (Inr res') w)) (requests w ! p)
              = Some \<lparr>data = JNull, error = Some e, promise = None\<rparr>)
       \<and> cache_get (cache (settle p (Inl e') w)) (requests w ! p)
              = Some \<lparr>data = JNull, error = Some e', promise = None\<rparr>"
  using assms
  by (simp add: settle_def cache_get_set_same retrieval_outcome_def settled_entry_def)

theorem failed_retrieval_stores_error_object_witness:
  "(0::nat) \<in> set (inflight (pending_world ''/items'' (initial_world :: int world)))
   \<and> 0 < length (requests (pending_world ''/items'' (initial_world :: int world)))
   \<and> cache_get (cache (settle 0 (Inr \<lparr>ok = False, status = 404, json = Inr JNull\<rparr>)
         (pending_world ''/items'' (initial_world :: int world)))) ''/items''
       = Some \<lparr>data = JNull,
               error = Some \<lparr>name = ''Error'', message = ''Request failed with status 404''\<rparr>,
               promise = None\<rparr>
   \<and> cache_get (cache (settle 0
         (Inr \<lparr>ok = True, status = 200,
               json = Inl \<lparr>name = ''SyntaxError'', message = ''Unexpected end of JSON input''\<rparr>\<rparr>)
         (pending_world ''/items'' (initial_world :: int world)))) ''/items''
       = Some \<lparr>data = JNull,
               error = Some \<lparr>name = ''SyntaxError'', message = ''Unexpected end of JSON input''\<rparr>,
               promise = None\<rparr>"
proof -
  let ?w = "pending_world ''/items'' (initial_world :: int world)"
  have h1: "(0::nat) \<in> set (inflight ?w)" and h2: "0 < length (requests ?w)"
    by (simp_all add: pending_world_initial)
  have url: "requests ?w ! 0 = ''/items''"
    by (simp add: pending_world_initial)
  from failed_retrieval_stores_error_object [OF h1 h2,
      of "\<lparr>ok = False, status = 404, json = Inr JNull\<rparr>"
         "\<lparr>ok = True, status = 200,
           json = Inl \<lparr>name = ''SyntaxError'', message = ''Unexpected end of JSON input''\<rparr>\<rparr>"
         "\<lparr>name = ''SyntaxError'', message = ''Unexpected end of JSON input''\<rparr>"]
  show ?thesis
    using h1 h2 by (simp add: url show_nat_404 new_Error_def)
qed

text \<open>
  The claim as the specification words it (only the message text is stored, nothing
  of the error beyond it) fails: after a failed decoding the stored error is the
  decoder's \<^verbatim>\<open>SyntaxError\<close>, which is not the error that carries the message alone.
\<close>

theorem stored_error_is_not_message_only:
  "cache_get (cache (settle 0
       (Inr \<lparr>ok = True, status = 200,
             json = Inl \<lparr>name = ''SyntaxError'', message = ''Unexpected end of JSON input''\<rparr>\<rparr>)
       (pending_world ''/items'' (initial_world :: int world)))) ''/items''
     = Some \<lparr>data = JNull,
             error = Some \<lparr>name = ''SyntaxError'', message = ''Unexpected end of JSON input''\<rparr>,
             promise = None\<rparr>
   \<and> \<lparr>name = ''SyntaxError'', message = ''Unexpected end of JSON input''\<rparr>
       \<noteq> new_Error ''Unexpected end of JSON input''"
  by (simp add: settle_def pending_world_initial cache_get_def cache_set_def
      retrieval_outcome_def settled_entry_def new_Error_def)

section \<open>What the hydrator installs\<close>

lemma forEach_set_installed: "snd (forEach_set P es c) = set_all (installed P es) c"
  by (induction es arbitrary: c) (simp_all add: set_all_def split: sum.splits)

lemma installed_keys_subset: "fst ` set (installed P es) \<subseteq> fst ` set es"
  by (induction es) (auto split: sum.splits)

lemma installed_distinct:
  "distinct (map fst es) \<Longrightarrow> distinct (map fst (installed P es))"
proof (induction es)
  case Nil
  then show ?case by simp
next
  case (Cons kv rest)
  then show ?case
    using installed_keys_subset [of P rest] by (auto split: sum.splits)
qed

lemma set_all_other:
  "k \<notin> fst ` set kes \<Longrightarrow> cache_get (set_all kes c) k = cache_get c k"
  by (induction kes arbitrary: c) (auto simp: set_all_def cache_get_set_other)

lemma set_all_lookup:
  "distinct (map fst kes) \<Longrightarrow> (k, e) \<in> set kes \<Longrightarrow> cache_get (set_all kes c) k = Some e"
proof (induction kes arbitrary: c)
  case Nil
  then show ?case by simp
next
  case (Cons ke rest)
  show ?case
  proof (cases "ke = (k, e)")
    case True
    with Cons.prems have "k \<notin> fst ` set rest" by auto
    then have "cache_get (set_all rest (cache_set k e c)) k = cache_get (cache_set k e c) k"
      by (rule set_all_other)
    with True show ?thesis by (simp add: set_all_def cache_get_set_same)
  next
    case False
    with Cons.prems have "(k, e) \<in> set rest" and "distinct (map fst rest)" by auto
    with Cons.IH show ?thesis by (simp add: set_all_def)
  qed
qed

lemma set_all_fixed:
  "(\<And>ke. ke \<in> set kes \<Longrightarrow> cache_get c (fst ke) = Some (snd ke)) \<Longrightarrow> set_all kes c = c"
proof (induction kes)
  case Nil
  then show ?case by (simp add: set_all_def)
next
  case (Cons ke rest)
  have "cache_set (fst ke) (snd ke) c = c"
    using Cons.prems [of ke] by (simp add: cache_set_def cache_get_def update_triv)
  with Cons show ?case by (simp add: set_all_def)
qed

lemma set_all_twice:
  assumes "distinct (map fst kes)"
  shows "set_all kes (set_all kes c) = set_all kes c"
proof (rule set_all_fixed)
  fix ke assume "ke \<in> set kes"
  then have "(fst ke, snd ke) \<in> set kes" by simp
  with assms show "cache_get (set_all kes c) (fst ke) = Some (snd ke)"
    by (rule set_all_lookup)
qed

lemma read_decimal_snoc: "read_decimal (s @ [c]) = 10 * read_decimal s + (of_char c - 48)"
  by (simp add: read_decimal_def)

lemma of_char_digit:
  assumes "d < 10"
  shows "(of_char (char_of (48 + d :: nat)) :: int) = 48 + int d"
proof -
  have "(of_char (char_of (48 + d)) :: int) = of_char (char_of (int (48 + d)))"
    by (simp only: char_of_nat)
  also have "\<dots> = int (48 + d) mod 256"
    by (simp only: of_char_of)
  also have "\<dots> = 48 + int d"
    using assms by simp
  finally show ?thesis .
qed

lemma read_decimal_show_nat: "read_decimal (show_nat n) = int n"
proof (induction n rule: show_nat.induct)
  case (1 n)
  show ?case
  proof (cases "n < 10")
    case True
    then show ?thesis
      by (subst show_nat.simps) (simp add: read_decimal_def of_char_digit)
  next
    case False
    have d: "n mod 10 < 10" by simp
    from False 1 have "read_decimal (show_nat (n div 10)) = int (n div 10)" by simp
    with False show ?thesis
      by (subst show_nat.simps) (simp add: read_decimal_snoc of_char_digit [OF d] of_nat_mod of_nat_div)
  qed
qed

lemma inj_show_nat: "inj show_nat"
proof (rule injI)
  fix m n assume "show_nat m = show_nat n"
  then have "read_decimal (show_nat m) = read_decimal (show_nat n)" by simp
  then show "m = n" by (simp add: read_decimal_show_nat)
qed

lemma indexed_distinct: "distinct (map fst (indexed xs))"
  by (simp add: indexed_def distinct_map inj_on_def inj_show_nat [THEN injD])

lemma own_properties_distinct: "distinct (map fst (own_properties kvs))"
proof -
  have "distinct (map fst acc) \<Longrightarrow>
        distinct (map fst (fold (\<lambda>kv. AList.update (fst kv) (snd kv)) kvs acc))" for acc
    by (induction kvs arbitrary: acc) (simp_all add: distinct_update)
  then show ?thesis by (simp add: own_properties_def)
qed

lemma property_order_distinct:
  "distinct (map fst ps) \<Longrightarrow> distinct (map fst (property_order ps))"
  by (auto simp: property_order_def distinct_map inj_on_def)

lemma set_property_order: "set (property_order ps) = set ps"
  by (auto simp: property_order_def)

lemma Object_entries_distinct: "Object_entries v = Inr es \<Longrightarrow> distinct (map fst es)"
  by (cases v)
     (auto simp: Object_entries_def indexed_distinct property_order_distinct own_properties_distinct)

section \<open>Hydration\<close>

text \<open>
  C4. Fail-open hydration: for every text on which \<^verbatim>\<open>JSON.parse\<close> throws,
  \<^verbatim>\<open>initializeCache\<close> returns normally and leaves the world, with every entry of the
  store, exactly as it was.
\<close>

theorem initializeCache_fail_open:
  assumes "JSON_parse P s = None"
  shows "initializeCache P s w = (Inr (), w)"
  using assms by (simp add: initializeCache_def try_block_def)

theorem initializeCache_fail_open_witness:
  "JSON_parse ref_platform ''not valid json'' = None
   \<and> initializeCache ref_platform ''not valid json''
        \<lparr>cache = [(''/items'', \<lparr>data = JBool True, error = None, promise = None\<rparr>)],
         requests = [''/items''], inflight = []\<rparr>
     = (Inr (), \<lparr>cache = [(''/items'', \<lparr>data = JBool True, error = None, promise = None\<rparr>)],
                requests = [''/items''], inflight = []\<rparr>)"
proof -
  have h: "JSON_parse ref_platform ''not valid json'' = None"
    by code_simp
  show ?thesis
    using h initializeCache_fail_open [OF h] by simp
qed

text \<open>
  C7. Idempotence of hydration: for every text, calling \<^verbatim>\<open>initializeCache\<close> a second
  time with it completes as the first call did and leaves the world, hence the store
  with its keys, data and errors, as the first call left it.
\<close>

theorem initializeCache_idempotent:
  "initializeCache P s (snd (initializeCache P s w)) = initializeCache P s w"
proof (cases "s = []")
  case True
  then show ?thesis by (simp add: initializeCache_def)
next
  case False
  have "snd (try_block P s (snd (try_block P s c))) = snd (try_block P s c)" for c
  proof (cases "JSON_parse P s")
    case None
    then show ?thesis by (simp add: try_block_def)
  next
    case (Some parsed)
    show ?thesis
    proof (cases "Object_entries parsed")
      case (Inl x)
      with Some show ?thesis by (simp add: try_block_def)
    next
      case (Inr es)
      then have "distinct (map fst (installed P es))"
        by (intro installed_distinct Object_entries_distinct)
      with Some Inr show ?thesis
        by (simp add: try_block_def forEach_set_installed set_all_twice)
    qed
  qed
  with False show ?thesis
    by (simp add: initializeCache_def split: prod.splits) (metis snd_conv)
qed

lemma forEach_set_complete:
  "fst (forEach_set P es c) = Inr () \<Longrightarrow> (k, v) \<in> set es \<Longrightarrow>
   \<exists>e. hydrate_entry P v = Inr e \<and> (k, e) \<in> set (installed P es)"
  by (induction es arbitrary: c) (auto split: sum.splits)

lemma hydrate_entry_empty_message:
  "Get value ''data'' = Inr d \<Longrightarrow> Get value ''error'' = Inr (JString []) \<Longrightarrow>
   hydrate_entry P value = Inr \<lparr>data = d, error = None, promise = None\<rparr>"
  by (simp add: hydrate_entry_def)

lemma installed_append:
  "fst (forEach_set P before c) = Inr () \<Longrightarrow>
   installed P (before @ rest) = installed P before @ installed P rest"
  by (induction before arbitrary: c) (auto split: sum.splits)

text \<open>
  C10, as the code has it. A snapshot entry whose error field is the empty string
  is installed with error null whenever the loop reaches it: if the text parses,
  \<open>(url, value)\<close> is one of its entries with \<^verbatim>\<open>value.error\<close> equal to \<^verbatim>\<open>""\<close>, and the
  entries enumerated before it are installed without a throw, the store afterwards
  holds for \<open>url\<close> the entry made of \<^verbatim>\<open>value.data\<close> and no error, whatever the entries
  after it do.
\<close>

theorem empty_error_message_hydrates_as_null:
  assumes "s \<noteq> []"
    and "JSON_parse P s = Some parsed"
    and "Object_entries parsed = Inr (before @ (url, value) # after)"
    and "fst (forEach_set P before (cache w)) = Inr ()"
    and "Get value ''data'' = Inr d"
    and "Get value ''error'' = Inr (JString [])"
  shows "cache_get (cache (snd (initializeCache P s w))) url
           = Some \<lparr>data = d, error = None, promise = None\<rparr>"
proof -
  let ?es = "before @ (url, value) # after"
  have "installed P ?es
      = installed P before @ (url, \<lparr>data = d, error = None, promise = None\<rparr>) # installed P after"
    using assms(4-6) by (simp add: installed_append hydrate_entry_empty_message)
  then have "(url, \<lparr>data = d, error = None, promise = None\<rparr>) \<in> set (installed P ?es)"
    by simp
  moreover have "distinct (map fst (installed P ?es))"
    using assms(3) by (intro installed_distinct Object_entries_distinct)
  ultimately have "cache_get (set_all (installed P ?es) (cache w)) url
      = Some \<lparr>data = d, error = None, promise = None\<rparr>"
    by (intro set_all_lookup)
  with assms(1-3) show ?thesis
    by (simp add: cache_initializeCache try_block_def forEach_set_installed)
qed

theorem empty_error_message_hydrates_as_null_witness:
  \<open>''{"/a":{"data":true,"error":null},"/k":{"data":null,"error":""},"/bad":null}'' \<noteq> []
   \<and> JSON_parse ref_platform
         ''{"/a":{"data":true,"error":null},"/k":{"data":null,"error":""},"/bad":null}''
       = Some (JObject [(''/a'', JObject [(''data'', JBool True), (''error'', JNull)]),
                        (''/k'', JObject [(''data'', JNull), (''error'', JString [])]),
                        (''/bad'', JNull)])
   \<and> Object_entries (JObject [(''/a'', JObject [(''data'', JBool True), (''error'', JNull)]),
                        (''/k'', JObject [(''data'', JNull), (''error'', JString [])]),
                        (''/bad'', JNull :: int jsvalue)])
       = Inr ([(''/a'', JObject [(''data'', JBool True), (''error'', JNull)])]
              @ (''/k'', JObject [(''data'', JNull), (''error'', JString [])])
              # [(''/bad'', JNull)])
   \<and> fst (forEach_set ref_platform
            [(''/a'', JObject [(''data'', JBool True), (''error'', JNull)])]
            (cache initial_world)) = Inr ()
   \<and> Get (JObject [(''data'', JNull), (''error'', JString [])] :: int jsvalue) ''data'' = Inr JNull
   \<and> Get (JObject [(''data'', JNull), (''error'', JString [])] :: int jsvalue) ''error''
       = Inr (JString [])
   \<and> cache_get (cache (snd (initializeCache ref_platform
         ''{"/a":{"data":true,"error":null},"/k":{"data":null,"error":""},"/bad":null}''
         initial_world))) ''/k''
       = Some \<lparr>data = JNull, error = None, promise = None\<rparr>\<close>
proof -
  let ?a = "JObject [(''data'', JBool True), (''error'', JNull)] :: int jsvalue"
  let ?v = "JObject [(''data'', JNull), (''error'', JString [])] :: int jsvalue"
  have h1: \<open>''{"/a":{"data":true,"error":null},"/k":{"data":null,"error":""},"/bad":null}'' \<noteq> []\<close>
    by simp
  have h2: \<open>JSON_parse ref_platform
         ''{"/a":{"data":true,"error":null},"/k":{"data":null,"error":""},"/bad":null}''
      = Some (JObject [(''/a'', ?a), (''/k'', ?v), (''/bad'', JNull)])\<close>
    by code_simp
  have h3: "Object_entries (JObject [(''/a'', ?a), (''/k'', ?v), (''/bad'', JNull)])
      = Inr ([(''/a'', ?a)] @ (''/k'', ?v) # [(''/bad'', JNull)])"
    by code_simp
  have h4: "fst (forEach_set ref_platform [(''/a'', ?a)] (cache initial_world)) = Inr ()"
    by code_simp
  have h5: "Get ?v ''data'' = Inr JNull"
    by code_simp
  have h6: "Get ?v ''error'' = Inr (JString [])"
    by code_simp
  note c = empty_error_message_hydrates_as_null [OF h1 h2 h3 h4 h5 h6]
  show ?thesis
    by (intro conjI h1 h2 h3 h4 h5 h6 c)
qed

text \<open>
  For every entry of every snapshot this fails: the loop stops at the first value it
  cannot read, and the \<^verbatim>\<open>catch\<close> drops the throw, so an entry with an empty error
  message that is enumerated after a null value is not installed at all.
\<close>

theorem empty_error_message_behind_a_throw_is_not_installed:
  \<open>JSON_parse ref_platform ''{"/bad":null,"/k":{"data":null,"error":""}}''
     = Some (JObject [(''/bad'', JNull),
                      (''/k'', JObject [(''data'', JNull), (''error'', JString [])])])
   \<and> Object_entries (JObject [(''/bad'', JNull),
                      (''/k'', JObject [(''data'', JNull), (''error'', JString [])] :: int jsvalue)])
     = Inr [(''/bad'', JNull),
            (''/k'', JObject [(''data'', JNull), (''error'', JString [])])]
   \<and> Get (JObject [(''data'', JNull), (''error'', JString [])] :: int jsvalue) ''error''
     = Inr (JString [])
   \<and> cache_get (cache (snd (initializeCache ref_platform
         ''{"/bad":null,"/k":{"data":null,"error":""}}'' initial_world))) ''/k'' = None\<close>
  by code_simp

section \<open>Invariant I2 under the operations that change the store\<close>

lemma I2_cache_set:
  "list_all I2 (map snd c) \<Longrightarrow> I2 e \<Longrightarrow> list_all I2 (map snd (cache_set k e c))"
  by (induction c) (auto simp: cache_set_def)

lemma I2_settled_entry: "I2 (settled_entry out)"
  by (cases out) (simp_all add: settled_entry_def I2_def)

lemma I2_hydrate_entry:
  "exclusive_value P v \<Longrightarrow> hydrate_entry P v = Inr e \<Longrightarrow> I2 e"
  by (auto simp: exclusive_value_def hydrate_entry_def I2_def split: sum.splits if_splits option.splits)

lemma I2_installed:
  "list_all (exclusive_value P) (map snd es) \<Longrightarrow> list_all I2 (map snd (installed P es))"
  by (induction es) (auto split: sum.splits intro: I2_hydrate_entry)

lemma I2_set_all:
  "list_all I2 (map snd kes) \<Longrightarrow> list_all I2 (map snd c) \<Longrightarrow> list_all I2 (map snd (set_all kes c))"
  by (induction kes arbitrary: c) (auto simp: set_all_def I2_cache_set)

text \<open>
  C5, as the code has it. From a store in which every entry satisfies I2: the
  completion of a retrieval and the wipe keep I2; the start of a retrieval sets the
  error of the pending entry to null and keeps the data the entry held before
  (\<^verbatim>\<open>existing?.data ?? null\<close>), so it keeps I2 when that data is absent; hydration
  installs the data and the error of each snapshot value as they stand, so it keeps
  I2 when no value of the snapshot carries both.
\<close>

theorem I2_preserved:
  assumes "store_I2 w"
  shows "store_I2 (settle p r w)
       \<and> store_I2 (wipeCache w)
       \<and> (nullish (opt_data (cache_get (cache w) url)) \<longrightarrow> store_I2 (snd (fetchAndCache url w)))
       \<and> (list_all (exclusive_value P) (snapshot_values P s) \<longrightarrow>
            store_I2 (snd (initializeCache P s w)))"
proof (intro conjI impI)
  show "store_I2 (settle p r w)"
    using assms by (simp add: store_I2_def settle_def I2_cache_set I2_settled_entry)
  show "store_I2 (wipeCache w)"
    by (simp add: store_I2_def wipeCache_def)
  show "store_I2 (snd (fetchAndCache url w))" if "nullish (opt_data (cache_get (cache w) url))"
    using assms that
    by (auto simp: store_I2_def fetchAndCache_def Let_def coalesce_def I2_def
        intro!: I2_cache_set split: option.splits)
  show "store_I2 (snd (initializeCache P s w))"
    if ex: "list_all (exclusive_value P) (snapshot_values P s)"
  proof -
    have "list_all I2 (map snd (snd (try_block P s (cache w))))"
    proof (cases "JSON_parse P s")
      case None
      with assms show ?thesis by (simp add: try_block_def store_I2_def)
    next
      case (Some parsed)
      show ?thesis
      proof (cases "Object_entries parsed")
        case (Inl x)
        with Some assms show ?thesis by (simp add: try_block_def store_I2_def)
      next
        case (Inr es)
        with Some ex have "list_all (exclusive_value P) (map snd es)"
          by (simp add: snapshot_values_def)
        then have "list_all I2 (map snd (installed P es))"
          by (rule I2_installed)
        with assms Some Inr show ?thesis
          by (simp add: try_block_def forEach_set_installed I2_set_all store_I2_def)
      qed
    qed
    with assms show ?thesis
      by (simp add: store_I2_def cache_initializeCache)
  qed
qed

theorem I2_preserved_witness:
  \<open>store_I2 (pending_world ''/a'' (initial_world :: int world))
   \<and> nullish (opt_data (cache_get (cache (pending_world ''/a'' (initial_world :: int world))) ''/b''))
   \<and> list_all (exclusive_value ref_platform)
        (snapshot_values ref_platform ''{"/k":{"data":true,"error":null}}'')
   \<and> store_I2 (settle 0 (Inr \<lparr>ok = True, status = 200, json = Inr (JBool True)\<rparr>)
        (pending_world ''/a'' (initial_world :: int world)))
   \<and> store_I2 (wipeCache (pending_world ''/a'' (initial_world :: int world)))
   \<and> store_I2 (snd (fetchAndCache ''/b'' (pending_world ''/a'' (initial_world :: int world))))
   \<and> store_I2 (snd (initializeCache ref_platform ''{"/k":{"data":true,"error":null}}''
        (pending_world ''/a'' (initial_world :: int world))))\<close>
proof -
  let ?w = "pending_world ''/a'' (initial_world :: int world)"
  have h1: "store_I2 ?w"
    by (simp add: pending_world_initial store_I2_def I2_def)
  have h2: "nullish (opt_data (cache_get (cache ?w) ''/b''))"
    by (simp add: pending_world_initial cache_get_def opt_data_def)
  have h3: \<open>list_all (exclusive_value ref_platform)
        (snapshot_values ref_platform ''{"/k":{"data":true,"error":null}}'')\<close>
    by code_simp
  from I2_preserved [OF h1, of 0 "Inr \<lparr>ok = True, status = 200, json = Inr (JBool True)\<rparr>"
      "''/b''" ref_platform \<open>''{"/k":{"data":true,"error":null}}''\<close>]
  show ?thesis
    using h1 h2 h3 by blast
qed

text \<open>
  The claim as the specification words it (every operation keeps I2) fails twice.
  Hydrating a snapshot whose entry has both data and an error message installs an
  entry with both. Starting a retrieval for an entry whose data is \<^verbatim>\<open>false\<close> leaves
  a pending entry that still has that data.
\<close>

theorem I2_broken_by_hydration_and_by_retrieval_start:
  \<open>store_I2 (initial_world :: int world)
   \<and> \<not> store_I2 (snd (initializeCache ref_platform ''{"/k":{"data":true,"error":"x"}}''
          initial_world))
   \<and> store_I2 \<lparr>cache = [(''/flag'', \<lparr>data = JBool False, error = None, promise = None\<rparr>)],
               requests = [''/flag''], inflight = []\<rparr>
   \<and> \<not> store_I2 (snd (preloadCachingFetch ref_platform ''/flag''
          \<lparr>cache = [(''/flag'', \<lparr>data = JBool False, error = None, promise = None\<rparr>)],
           requests = [''/flag''], inflight = []\<rparr>))\<close>
  by code_simp

section \<open>The keys of the store\<close>

text \<open>
  A \<^verbatim>\<open>Map\<close> has each key once. The list that stands for it starts empty, and every
  operation of the module keeps its keys distinct.
\<close>

lemma distinct_cache_set:
  "distinct (map fst c) \<Longrightarrow> distinct (map fst (cache_set k e c))"
  by (simp add: cache_set_def distinct_update)

lemma distinct_set_all:
  "distinct (map fst c) \<Longrightarrow> distinct (map fst (set_all kes c))"
  by (induction kes arbitrary: c) (simp_all add: set_all_def distinct_cache_set)

lemma distinct_try_block:
  "distinct (map fst c) \<Longrightarrow> distinct (map fst (snd (try_block P s c)))"
  by (simp add: try_block_def forEach_set_installed distinct_set_all split: option.splits sum.splits)

lemma distinct_keys_preserved:
  assumes "distinct (map fst (cache w))"
  shows "distinct (map fst (cache (snd (fetchAndCache url w))))"
    and "distinct (map fst (cache (settle p r w)))"
    and "distinct (map fst (cache (wipeCache w)))"
    and "distinct (map fst (cache (snd (initializeCache P s w))))"
  using assms
  by (simp_all add: fetchAndCache_def settle_def wipeCache_def cache_initializeCache Let_def
      distinct_cache_set distinct_try_block split: option.splits)

section \<open>Round trip through serializer and hydrator\<close>

lemma update_fresh: "k \<notin> fst ` set al \<Longrightarrow> AList.update k v al = al @ [(k, v)]"
  by (induction al) auto

lemma fold_update_fresh:
  "distinct (map fst kvs) \<Longrightarrow> fst ` set kvs \<inter> fst ` set acc = {} \<Longrightarrow>
   fold (\<lambda>kv. AList.update (fst kv) (snd kv)) kvs acc = acc @ kvs"
proof (induction kvs arbitrary: acc)
  case Nil
  then show ?case by simp
next
  case (Cons kv kvs)
  from Cons.prems have fresh: "fst kv \<notin> fst ` set acc" by auto
  from Cons.prems have "fst ` set kvs \<inter> fst ` set (acc @ [kv]) = {}" by auto
  with Cons show ?case by (simp add: update_fresh [OF fresh])
qed

lemma own_properties_distinct_id: "distinct (map fst kvs) \<Longrightarrow> own_properties kvs = kvs"
  by (simp add: own_properties_def fold_update_fresh)

lemma snapshot_of_keys: "map fst (snapshot_of c) = filter (\<lambda>k. k \<noteq> ''__proto__'') (map fst c)"
  by (induction c) (simp_all add: snapshot_of_def)

lemma serializable_fold:
  "distinct (map fst c) \<Longrightarrow> fst ` set c \<inter> fst ` set acc = {} \<Longrightarrow>
   fold (\<lambda>kv. set_property (fst kv) (serializable_entry (snd kv))) c acc = acc @ snapshot_of c"
proof (induction c arbitrary: acc)
  case Nil
  then show ?case by (simp add: snapshot_of_def)
next
  case (Cons kv c)
  from Cons.prems have fresh: "fst kv \<notin> fst ` set acc" by auto
  show ?case
  proof (cases "fst kv = ''__proto__''")
    case True
    from Cons.prems have "fst ` set c \<inter> fst ` set acc = {}" by auto
    with Cons True show ?thesis by (simp add: set_property_def snapshot_of_def)
  next
    case False
    from Cons.prems
    have "fst ` set c \<inter> fst ` set (acc @ [(fst kv, serializable_entry (snd kv))]) = {}"
      by auto
    with Cons False show ?thesis
      by (simp add: set_property_def update_fresh [OF fresh] snapshot_of_def)
  qed
qed

lemma serializable_distinct: "distinct (map fst c) \<Longrightarrow> serializable c = snapshot_of c"
  by (simp add: serializable_def serializable_fold)

lemma hydrate_serializable_entry: "hydrate_entry P (serializable_entry e) = Inr (rehydrated e)"
  by (cases "error e")
     (simp_all add: hydrate_entry_def serializable_entry_def own_properties_def rehydrated_def)

lemma forEach_set_no_throw:
  "(\<And>kv. kv \<in> set es \<Longrightarrow> \<exists>e. hydrate_entry P (snd kv) = Inr e) \<Longrightarrow>
   fst (forEach_set P es c) = Inr ()"
proof (induction es arbitrary: c)
  case Nil
  then show ?case by simp
next
  case (Cons kv es)
  from Cons.prems [of kv] obtain e where "hydrate_entry P (snd kv) = Inr e" by auto
  with Cons show ?case by simp
qed

lemma producer_world_reached:
  "producer_world =
     settle 1 (Inr \<lparr>ok = False, status = 404, json = Inr JNull\<rparr>)
       (snd (preloadCachingFetch ref_platform ''/missing''
         (settle 0 (Inr \<lparr>ok = True, status = 200, json = Inr (JArray [JNumber 1, JString ''a''])\<rparr>)
           (snd (preloadCachingFetch ref_platform ''/items'' initial_world)))))"
  by code_simp

text \<open>
  What the pair does apart from the text in between: handing the entries of the
  snapshot object to the hydrator's loop installs, for every key of the store other
  than \<^verbatim>\<open>__proto__\<close>, the data of the entry and an error made from its message, unless
  the message is empty.
\<close>

lemma hydrate_snapshot_object:
  assumes keys: "distinct (map fst (cache w))"
    and entry: "cache_get (cache w) k = Some e"
    and key: "k \<noteq> ''__proto__''"
  shows "Object_entries (JObject (serializable (cache w)))
           = Inr (property_order (snapshot_of (cache w)))
       \<and> cache_get (snd (forEach_set P (property_order (snapshot_of (cache w))) c0)) k
           = Some (rehydrated e)"
proof -
  let ?es = "property_order (snapshot_of (cache w))"
  have dist: "distinct (map fst (snapshot_of (cache w)))"
    using keys by (simp add: snapshot_of_keys)
  have es: "Object_entries (JObject (serializable (cache w))) = Inr ?es"
    using keys dist
    by (simp add: Object_entries_def serializable_distinct own_properties_distinct_id)
  have "(k, e) \<in> set (cache w)"
    using entry by (simp add: cache_get_def map_of_SomeD)
  with key have mem: "(k, serializable_entry e) \<in> set ?es"
    by (force simp: set_property_order snapshot_of_def)
  have "\<exists>e'. hydrate_entry P (snd kv) = Inr e'" if "kv \<in> set ?es" for kv
    using that by (auto simp: set_property_order snapshot_of_def hydrate_serializable_entry)
  then have "fst (forEach_set P ?es c0) = Inr ()"
    by (rule forEach_set_no_throw)
  from forEach_set_complete [OF this mem]
  have inst: "(k, rehydrated e) \<in> set (installed P ?es)"
    by (simp add: hydrate_serializable_entry)
  have "distinct (map fst (installed P ?es))"
    using es by (intro installed_distinct Object_entries_distinct)
  with inst have "cache_get (set_all (installed P ?es) c0) k = Some (rehydrated e)"
    by (intro set_all_lookup)
  with es show ?thesis
    by (simp add: forEach_set_installed)
qed

lemma round_trip_producer_world:
  "cache (snd (initializeCache ref_platform (serializeCache ref_platform producer_world)
      initial_world)) = cache producer_world"
  by code_simp

text \<open>
  C3. The round trip does not reproduce every entry. A failed entry whose error has
  the empty message is dumped with \<^verbatim>\<open>"error":""\<close> and hydrated with error null, so
  its message is lost and the entry is no longer a failed one. An entry under the key
  \<^verbatim>\<open>__proto__\<close> is not in the dump, so a fresh store hydrated from it has no entry
  for that key.
\<close>

theorem round_trip_loses_empty_message_and_proto_key:
  "map_option message (opt_error (cache_get
       [(''/k'', \<lparr>data = JNull, error = Some \<lparr>name = ''Error'', message = []\<rparr>, promise = None\<rparr>)]
       ''/k'')) = Some []
   \<and> map_option message (opt_error (cache_get (cache (snd (initializeCache ref_platform
         (serializeCache ref_platform
            \<lparr>cache = [(''/k'', \<lparr>data = JNull, error = Some \<lparr>name = ''Error'', message = []\<rparr>,
                                 promise = None\<rparr>)],
             requests = [''/k''], inflight = []\<rparr>)
         initial_world))) ''/k'')) = None
   \<and> opt_data (cache_get
       [(''__proto__'', \<lparr>data = JBool True, error = None, promise = None\<rparr>)] ''__proto__'')
       = (JBool True :: int jsvalue)
   \<and> cache_get (cache (snd (initializeCache ref_platform
         (serializeCache ref_platform
            \<lparr>cache = [(''__proto__'', \<lparr>data = JBool True, error = None, promise = None\<rparr>)],
             requests = [''__proto__''], inflight = []\<rparr>)
         initial_world))) ''__proto__'' = None"
  by code_simp

section \<open>Resolved entries and new retrievals\<close>

lemma resolved_false_world_reached:
  "resolved_false_world =
     settle 0 (Inr \<lparr>ok = True, status = 200, json = Inr (JBool False)\<rparr>)
       (snd (preloadCachingFetch ref_platform ''/flag'' initial_world))"
  by code_simp

text \<open>
  C2. An entry that has resolved with the payload \<^verbatim>\<open>false\<close> is not answered from the
  store: \<^verbatim>\<open>preloadCachingFetch\<close> and the effect of \<^verbatim>\<open>useCachingFetch\<close> both find the
  data falsy, enter \<^verbatim>\<open>fetchAndCache\<close>, and a second request for the same url is made.
\<close>

theorem resolved_falsy_payload_is_fetched_again:
  "cache_get (cache resolved_false_world) ''/flag''
     = Some \<lparr>data = JBool False, error = None, promise = None\<rparr>
   \<and> preloadCachingFetch ref_platform ''/flag'' resolved_false_world
     = (Some 1,
        \<lparr>cache = [(''/flag'', \<lparr>data = JBool False, error = None, promise = Some 1\<rparr>)],
         requests = [''/flag'', ''/flag''],
         inflight = [1]\<rparr>)
   \<and> run_call ref_platform ''/flag'' Read resolved_false_world
     = (Some 1,
        \<lparr>cache = [(''/flag'', \<lparr>data = JBool False, error = None, promise = Some 1\<rparr>)],
         requests = [''/flag'', ''/flag''],
         inflight = [1]\<rparr>)"
  by code_simp

section \<open>The initial snapshot of the hook\<close>

text \<open>
  C6. For an entry that has resolved with the payload \<^verbatim>\<open>false\<close> the first render
  reports \<^verbatim>\<open>isLoading = true\<close> together with \<^verbatim>\<open>data = false\<close>, and the effect starts
  a retrieval: neither the snapshot of an entry that has data nor the snapshot
  \<^verbatim>\<open>{ isLoading: true, data: null, error: null }\<close> of one that has none.
\<close>

theorem initial_snapshot_of_falsy_payload:
  "cache_get (cache resolved_false_world) ''/flag''
     = Some \<lparr>data = JBool False, error = None, promise = None\<rparr>
   \<and> useCachingFetch ref_platform ''/flag'' resolved_false_world
     = \<lparr>state_data = JBool False, state_error = None, isLoading = True\<rparr>
   \<and> snd (fst (useEffect_body ref_platform ''/flag''
         (useCachingFetch ref_platform ''/flag'' resolved_false_world) resolved_false_world))
     = Some 1"
  by code_simp

text \<open>
  Where the payload is truthy or the entry has an error, and where there is no entry
  or only null data, the snapshot and the effect are as the specification says.
\<close>

lemma initial_snapshot_cached:
  assumes "cache_get (cache w) url = Some e" and "ToBoolean P (data e) \<or> error e \<noteq> None"
  shows "useCachingFetch P url w
           = \<lparr>state_data = coalesce (data e) JNull, state_error = error e, isLoading = False\<rparr>
       \<and> useEffect_body P url st w
           = ((\<lparr>state_data = data e, state_error = error e, isLoading = False\<rparr>, None), w)"
  using assms
  by (simp add: useCachingFetch_def useEffect_body_def opt_data_def opt_error_def)

lemma initial_snapshot_absent:
  assumes "nullish (opt_data (cache_get (cache w) url))"
    and "opt_error (cache_get (cache w) url) = None"
  shows "useCachingFetch P url w = \<lparr>state_data = JNull, state_error = None, isLoading = True\<rparr>
       \<and> snd (fst (useEffect_body P url st w)) = Some (fst (fetchAndCache url w))"
proof -
  have falsy: "\<not> ToBoolean P (opt_data (cache_get (cache w) url))"
    using assms(1) by (cases "opt_data (cache_get (cache w) url)") simp_all
  show ?thesis
    using assms falsy
    by (cases "cache_get (cache w) url")
       (simp_all add: useCachingFetch_def useEffect_body_def opt_data_def opt_error_def
          coalesce_def split: prod.splits)
qed

end
